theory Spec2Isabelle
  imports Complex_Main
begin

section \<open>Python values and floats\<close>

text \<open>
  The script \<^verbatim>\<open>public/scripts/discover.py\<close> works on the objects that
  \<^verbatim>\<open>json.load\<close> returns: dictionaries with string keys, lists, strings, integers of
  any size, floats, booleans and \<^verbatim>\<open>None\<close>. A float is an IEEE binary64 value: a finite
  number, one of the two infinities, or NaN. The two zeros are identified (the script never
  tells them apart: it compares with \<^verbatim>\<open>==\<close>, \<^verbatim>\<open><\<close> and \<^verbatim>\<open>>\<close> only).
\<close>

datatype pyfloat = Fin real | PInf | NInf | NaN

datatype pyval =
    PNone
  | PBool bool
  | PInt int
  | PFloat pyfloat
  | PStr string
  | PList "pyval list"
  | PDict "(string \<times> pyval) list"

datatype py_error =
  AttributeError | TypeError | ValueError | OverflowError | ZeroDivisionError | StatisticsError

type_synonym 'a result = "py_error + 'a"

definition bindE :: "'a result \<Rightarrow> ('a \<Rightarrow> 'b result) \<Rightarrow> 'b result" where
  "bindE m f = (case m of Inl e \<Rightarrow> Inl e | Inr x \<Rightarrow> f x)"

fun mapE :: "('a \<Rightarrow> 'b result) \<Rightarrow> 'a list \<Rightarrow> 'b list result" where
  "mapE f [] = Inr []"
| "mapE f (x # xs) = bindE (f x) (\<lambda>y. bindE (mapE f xs) (\<lambda>ys. Inr (y # ys)))"

subsection \<open>Rounding to binary64\<close>

text \<open>
  Every arithmetic operation returns the binary64 value nearest to the exact result, ties
  going to the even significand. \<open>rne q\<close> is the integer nearest to \<open>q\<close>, ties to even.
  \<open>expo x\<close> is the exponent of the unit in the last place around \<open>x\<close>: 53 significant
  bits, and never below \<open>-1074\<close> (the subnormal range). A rounded magnitude of
  \<open>2 ^ 1024\<close> or more overflows to an infinity. Rounding is symmetric around zero.
\<close>

definition rne :: "real \<Rightarrow> int" where
  "rne q = (let f = \<lfloor>q\<rfloor>; d = q - of_int f in
     if d < 1 / 2 then f else if 1 / 2 < d then f + 1 else if even f then f else f + 1)"

definition expo :: "real \<Rightarrow> int" where
  "expo x = max (- 1074) (\<lfloor>log 2 \<bar>x\<bar>\<rfloor> - 52)"

definition round_val :: "real \<Rightarrow> real" where
  "round_val x = of_int (rne (x / 2 powi expo x)) * 2 powi expo x"

definition round_pos :: "real \<Rightarrow> pyfloat" where
  "round_pos x = (let v = round_val x in if 2 ^ 1024 \<le> v then PInf else Fin v)"

fun fneg :: "pyfloat \<Rightarrow> pyfloat" where
  "fneg (Fin a) = Fin (- a)"
| "fneg PInf = NInf"
| "fneg NInf = PInf"
| "fneg NaN = NaN"

definition round64 :: "real \<Rightarrow> pyfloat" where
  "round64 x = (if x < 0 then fneg (round_pos (- x)) else round_pos x)"

text \<open>The finite binary64 values: a significand below \<open>2 ^ 53\<close> and an exponent in range.\<close>

definition is_double :: "real \<Rightarrow> bool" where
  "is_double x \<longleftrightarrow>
     (\<exists>m e. x = of_int m * 2 powi e \<and> \<bar>m\<bar> < 2 ^ 53 \<and> - 1074 \<le> e \<and> e \<le> 971)"

subsection \<open>Float arithmetic and comparisons\<close>

fun fadd :: "pyfloat \<Rightarrow> pyfloat \<Rightarrow> pyfloat" where
  "fadd NaN _ = NaN"
| "fadd _ NaN = NaN"
| "fadd PInf NInf = NaN"
| "fadd NInf PInf = NaN"
| "fadd PInf _ = PInf"
| "fadd _ PInf = PInf"
| "fadd NInf _ = NInf"
| "fadd _ NInf = NInf"
| "fadd (Fin a) (Fin b) = round64 (a + b)"

definition fsub :: "pyfloat \<Rightarrow> pyfloat \<Rightarrow> pyfloat" where
  "fsub a b = fadd a (fneg b)"

definition inf_of_sign :: "bool \<Rightarrow> pyfloat" where
  "inf_of_sign pos = (if pos then PInf else NInf)"

fun fmul :: "pyfloat \<Rightarrow> pyfloat \<Rightarrow> pyfloat" where
  "fmul NaN _ = NaN"
| "fmul _ NaN = NaN"
| "fmul (Fin a) (Fin b) = round64 (a * b)"
| "fmul (Fin a) PInf = (if a = 0 then NaN else inf_of_sign (0 < a))"
| "fmul (Fin a) NInf = (if a = 0 then NaN else inf_of_sign (a < 0))"
| "fmul PInf (Fin b) = (if b = 0 then NaN else inf_of_sign (0 < b))"
| "fmul NInf (Fin b) = (if b = 0 then NaN else inf_of_sign (b < 0))"
| "fmul PInf PInf = PInf"
| "fmul NInf NInf = PInf"
| "fmul PInf NInf = NInf"
| "fmul NInf PInf = NInf"

text \<open>Division by a non-zero float; \<open>py_truediv\<close> below raises on a zero divisor first.\<close>

fun fdiv :: "pyfloat \<Rightarrow> pyfloat \<Rightarrow> pyfloat" where
  "fdiv NaN _ = NaN"
| "fdiv _ NaN = NaN"
| "fdiv (Fin a) (Fin b) = round64 (a / b)"
| "fdiv (Fin a) PInf = Fin 0"
| "fdiv (Fin a) NInf = Fin 0"
| "fdiv PInf (Fin b) = inf_of_sign (0 < b)"
| "fdiv NInf (Fin b) = inf_of_sign (b < 0)"
| "fdiv PInf PInf = NaN"
| "fdiv PInf NInf = NaN"
| "fdiv NInf PInf = NaN"
| "fdiv NInf NInf = NaN"

definition py_truediv :: "pyfloat \<Rightarrow> pyfloat \<Rightarrow> pyfloat result" where
  "py_truediv a b = (if b = Fin 0 then Inl ZeroDivisionError else Inr (fdiv a b))"

text \<open>\<open>flt a b\<close> is Python's \<^verbatim>\<open>a < b\<close> on floats: false as soon as one side is NaN.\<close>

fun flt :: "pyfloat \<Rightarrow> pyfloat \<Rightarrow> bool" where
  "flt NaN _ = False"
| "flt _ NaN = False"
| "flt (Fin a) (Fin b) = (a < b)"
| "flt NInf NInf = False"
| "flt NInf _ = True"
| "flt _ NInf = False"
| "flt PInf _ = False"
| "flt _ PInf = True"

definition fgt :: "pyfloat \<Rightarrow> pyfloat \<Rightarrow> bool" where
  "fgt a b = flt b a"

text \<open>\<open>fle a b\<close> is \<^verbatim>\<open>a <= b\<close>.\<close>

definition fle :: "pyfloat \<Rightarrow> pyfloat \<Rightarrow> bool" where
  "fle a b = (a \<noteq> NaN \<and> b \<noteq> NaN \<and> \<not> flt b a)"

text \<open>\<^verbatim>\<open>math.isfinite\<close>, \<^verbatim>\<open>math.isinf\<close>, \<^verbatim>\<open>math.isnan\<close>.\<close>

fun isfinite :: "pyfloat \<Rightarrow> bool" where
  "isfinite (Fin _) = True"
| "isfinite _ = False"

section \<open>Operations of the Python runtime\<close>

text \<open>
  \<^verbatim>\<open>float(v)\<close>. \<^verbatim>\<open>None\<close>, lists and dictionaries raise \<^verbatim>\<open>TypeError\<close>; an integer
  converts to the nearest float, or raises \<^verbatim>\<open>OverflowError\<close> when that is out of range;
  a boolean is the integer 0 or 1; a float is returned as it is. A string goes through
  CPython's parser of float literals, which is not part of this repository: it is the
  parameter \<open>sf\<close>, \<open>None\<close> standing for \<^verbatim>\<open>ValueError\<close>.
\<close>

type_synonym str_parser = "string \<Rightarrow> pyfloat option"

definition int_to_float :: "int \<Rightarrow> pyfloat result" where
  "int_to_float k = (case round64 (of_int k) of Fin x \<Rightarrow> Inr (Fin x) | _ \<Rightarrow> Inl OverflowError)"

fun py_float :: "str_parser \<Rightarrow> pyval \<Rightarrow> pyfloat result" where
  "py_float sf PNone = Inl TypeError"
| "py_float sf (PBool b) = Inr (Fin (if b then 1 else 0))"
| "py_float sf (PInt k) = int_to_float k"
| "py_float sf (PFloat x) = Inr x"
| "py_float sf (PStr s) = (case sf s of None \<Rightarrow> Inl ValueError | Some x \<Rightarrow> Inr x)"
| "py_float sf (PList _) = Inl TypeError"
| "py_float sf (PDict _) = Inl TypeError"

text \<open>Truth value of an object, as \<^verbatim>\<open>or\<close> and \<^verbatim>\<open>if\<close> test it.\<close>

fun truthy :: "pyval \<Rightarrow> bool" where
  "truthy PNone = False"
| "truthy (PBool b) = b"
| "truthy (PInt k) = (k \<noteq> 0)"
| "truthy (PFloat x) = (x \<noteq> Fin 0)"
| "truthy (PStr s) = (s \<noteq> [])"
| "truthy (PList xs) = (xs \<noteq> [])"
| "truthy (PDict kvs) = (kvs \<noteq> [])"

text \<open>\<^verbatim>\<open>x.get(k)\<close>: only a dictionary has the method.\<close>

fun py_get :: "pyval \<Rightarrow> string \<Rightarrow> pyval result" where
  "py_get (PDict kvs) k = Inr (case map_of kvs k of None \<Rightarrow> PNone | Some v \<Rightarrow> v)"
| "py_get _ k = Inl AttributeError"

text \<open>\<^verbatim>\<open>(r.get(a) or {}).get(b)\<close>, the access path used for every field.\<close>

definition nested_get :: "string \<Rightarrow> string \<Rightarrow> pyval \<Rightarrow> pyval result" where
  "nested_get a b r =
     bindE (py_get r a) (\<lambda>x. py_get (if truthy x then x else PDict []) b)"

text \<open>An object can be a key of a \<^verbatim>\<open>Counter\<close> unless it is a list or a dictionary.\<close>

fun hashable :: "pyval \<Rightarrow> bool" where
  "hashable (PList _) = False"
| "hashable (PDict _) = False"
| "hashable _ = True"

section \<open>The script\<close>

definition pct :: "int \<Rightarrow> int \<Rightarrow> pyfloat result" where
  "pct n d =
     (if d \<noteq> 0
      then bindE (int_to_float n) (\<lambda>fn.
           bindE (int_to_float d) (\<lambda>fd. py_truediv (fmul (Fin 100) fn) fd))
      else Inr NaN)"

text \<open>
  The loop shared by \<^verbatim>\<open>safe_mean\<close> and \<^verbatim>\<open>safe_median\<close>: \<open>ys\<close> collects the
  values that convert to a finite float; an exception of \<^verbatim>\<open>float\<close> is swallowed.
\<close>

fun collect_finite :: "str_parser \<Rightarrow> pyval list \<Rightarrow> real list \<Rightarrow> real list" where
  "collect_finite sf [] ys = ys"
| "collect_finite sf (v # vs) ys =
     collect_finite sf vs
       (case py_float sf v of
          Inr y \<Rightarrow> (case y of Fin a \<Rightarrow> ys @ [a] | _ \<Rightarrow> ys)
        | Inl _ \<Rightarrow> ys)"

text \<open>\<^verbatim>\<open>sum(ys)\<close>: the floats are added from the left, starting from 0.\<close>

definition py_sum :: "real list \<Rightarrow> pyfloat" where
  "py_sum ys = fold (\<lambda>y acc. fadd acc (Fin y)) ys (Fin 0)"

definition safe_mean :: "str_parser \<Rightarrow> pyval list \<Rightarrow> pyfloat result" where
  "safe_mean sf xs =
     (let ys = collect_finite sf xs [] in
      if ys \<noteq> []
      then bindE (int_to_float (int (length ys))) (\<lambda>d. py_truediv (py_sum ys) d)
      else Inr NaN)"

text \<open>\<^verbatim>\<open>statistics.median\<close>: the middle of the sorted data, or the mean of the two middles.\<close>

definition median :: "real list \<Rightarrow> pyfloat result" where
  "median ys =
     (let d = sort ys; n = length d in
      if n = 0 then Inl StatisticsError
      else if n mod 2 = 1 then Inr (Fin (d ! (n div 2)))
      else py_truediv (fadd (Fin (d ! (n div 2 - 1))) (Fin (d ! (n div 2)))) (Fin 2))"

definition safe_median :: "str_parser \<Rightarrow> pyval list \<Rightarrow> pyfloat result" where
  "safe_median sf xs =
     (let ys = collect_finite sf xs [] in
      if ys \<noteq> [] then median ys else Inr NaN)"

text \<open>
  \<^verbatim>\<open>profit_factor\<close>: one pass over the rows with the two running sums. A value of
  \<^verbatim>\<open>R\<close> that \<^verbatim>\<open>float\<close> rejects counts as 0.0; nothing filters infinities or NaN.
\<close>

definition coerce_R :: "str_parser \<Rightarrow> pyval \<Rightarrow> pyfloat" where
  "coerce_R sf v = (case py_float sf v of Inl _ \<Rightarrow> Fin 0 | Inr x \<Rightarrow> x)"

definition pf_add :: "pyfloat \<Rightarrow> pyfloat \<times> pyfloat \<Rightarrow> pyfloat \<times> pyfloat" where
  "pf_add R gl =
     (if fgt R (Fin 0) then (fadd (fst gl) R, snd gl)
      else if flt R (Fin 0) then (fst gl, fadd (snd gl) (fneg R))
      else gl)"

fun pf_loop :: "str_parser \<Rightarrow> pyval list \<Rightarrow> pyfloat \<times> pyfloat \<Rightarrow> (pyfloat \<times> pyfloat) result" where
  "pf_loop sf [] gl = Inr gl"
| "pf_loop sf (r # rows) gl =
     bindE (nested_get ''simulation'' ''R'' r) (\<lambda>v. pf_loop sf rows (pf_add (coerce_R sf v) gl))"

definition pf_final :: "pyfloat \<times> pyfloat \<Rightarrow> pyfloat result" where
  "pf_final gl =
     (if snd gl = Fin 0 then Inr (if fgt (fst gl) (Fin 0) then PInf else NaN)
      else py_truediv (fst gl) (snd gl))"

definition profit_factor :: "str_parser \<Rightarrow> pyval list \<Rightarrow> pyfloat result" where
  "profit_factor sf rows = bindE (pf_loop sf rows (Fin 0, Fin 0)) pf_final"

text \<open>
  The summary is a dictionary with fifteen fixed keys; the record has one field per key
  (\<open>count_n\<close> for \<^verbatim>\<open>"n"\<close>, \<open>pf\<close> for \<^verbatim>\<open>"profit_factor"\<close>, \<open>_pct\<close> for \<^verbatim>\<open>_%\<close>).
\<close>

record summary =
  count_n :: int
  wins :: int
  win_rate_pct :: pyfloat
  avg_R :: pyfloat
  med_R :: pyfloat
  exp_R :: pyfloat
  pf :: pyfloat
  avg_return_pct :: pyfloat
  avg_hold_days :: pyfloat
  target_hit_pct :: pyfloat
  stop_hit_pct :: pyfloat
  time_exit_pct :: pyfloat
  avg_rr_at_entry :: pyfloat
  avg_mae_pct :: pyfloat
  avg_mfe_pct :: pyfloat

text \<open>One list comprehension over the rows: \<^verbatim>\<open>[(r.get(a) or {}).get(b) for r in rows]\<close>.\<close>

definition column :: "string \<Rightarrow> string \<Rightarrow> pyval list \<Rightarrow> pyval list result" where
  "column a b rows = mapE (nested_get a b) rows"

text \<open>\<^verbatim>\<open>sum(1 for v in vs if v == s)\<close> for a string \<open>s\<close>.\<close>

definition count_eq :: "string \<Rightarrow> pyval list \<Rightarrow> int" where
  "count_eq s vs = int (length (filter (\<lambda>v. v = PStr s) vs))"

text \<open>
  \<^verbatim>\<open>Counter(vs)\<close> hashes every element, so an unhashable one raises; the counter is kept
  as the list of its keys with repetitions, and \<^verbatim>\<open>ex.get(s, 0)\<close> is \<open>count_eq s\<close>.
\<close>

definition counter :: "pyval list \<Rightarrow> pyval list result" where
  "counter vs = (if list_all hashable vs then Inr vs else Inl TypeError)"

definition summarize :: "str_parser \<Rightarrow> pyval list \<Rightarrow> summary result" where
  "summarize sf rows =
     (let n = int (length rows) in
      bindE (column ''simulation'' ''result'' rows) (\<lambda>res_w.
      bindE (column ''simulation'' ''result'' rows) (\<lambda>res_l.
      bindE (column ''simulation'' ''exitType'' rows) (\<lambda>ets.
      bindE (counter ets) (\<lambda>ex.
      bindE (column ''simulation'' ''R'' rows) (\<lambda>R_vals.
      bindE (column ''simulation'' ''returnPct'' rows) (\<lambda>ret_vals.
      bindE (column ''risk'' ''rrAtEntry'' rows) (\<lambda>rr_vals.
      bindE (column ''simulation'' ''holdingDays'' rows) (\<lambda>hold_days.
      bindE (column ''simulation'' ''maePct'' rows) (\<lambda>mae_vals.
      bindE (column ''simulation'' ''mfePct'' rows) (\<lambda>mfe_vals.
      let wins = count_eq ''WIN'' res_w; losses = count_eq ''LOSS'' res_l in
      bindE (pct wins n) (\<lambda>v_win_rate.
      bindE (safe_mean sf R_vals) (\<lambda>v_avg_R.
      bindE (safe_median sf R_vals) (\<lambda>v_med_R.
      bindE (safe_mean sf R_vals) (\<lambda>v_exp_R.
      bindE (profit_factor sf rows) (\<lambda>v_pf.
      bindE (safe_mean sf ret_vals) (\<lambda>v_ret.
      bindE (safe_mean sf hold_days) (\<lambda>v_hold.
      bindE (pct (count_eq ''TARGET'' ex) n) (\<lambda>v_target.
      bindE (pct (count_eq ''STOP'' ex) n) (\<lambda>v_stop.
      bindE (pct (count_eq ''TIME'' ex) n) (\<lambda>v_time.
      bindE (safe_mean sf rr_vals) (\<lambda>v_rr.
      bindE (safe_mean sf mae_vals) (\<lambda>v_mae.
      bindE (safe_mean sf mfe_vals) (\<lambda>v_mfe.
      Inr \<lparr> count_n = n, wins = wins, win_rate_pct = v_win_rate, avg_R = v_avg_R,
            med_R = v_med_R, exp_R = v_exp_R, pf = v_pf, avg_return_pct = v_ret,
            avg_hold_days = v_hold, target_hit_pct = v_target, stop_hit_pct = v_stop,
            time_exit_pct = v_time, avg_rr_at_entry = v_rr, avg_mae_pct = v_mae,
            avg_mfe_pct = v_mfe \<rparr>))))))))))))))))))))))))"

subsection \<open>The report driver\<close>

text \<open>
  The partition loop of \<^verbatim>\<open>main\<close>:
  \<^verbatim>\<open>bn = ((r.get("signal") or {}).get("buyNow") is True)\<close>. Only the boolean
  \<^verbatim>\<open>True\<close> is identical to \<^verbatim>\<open>True\<close>.
\<close>

definition buy_now :: "pyval \<Rightarrow> bool result" where
  "buy_now r = bindE (nested_get ''signal'' ''buyNow'' r) (\<lambda>v. Inr (v = PBool True))"

fun partition_loop ::
  "pyval list \<Rightarrow> pyval list \<times> pyval list \<Rightarrow> (pyval list \<times> pyval list) result" where
  "partition_loop [] tf = Inr tf"
| "partition_loop (r # rs) tf =
     bindE (buy_now r) (\<lambda>bn.
       partition_loop rs (if bn then (fst tf @ [r], snd tf) else (fst tf, snd tf @ [r])))"

definition partition_events :: "pyval list \<Rightarrow> (pyval list \<times> pyval list) result" where
  "partition_events events = partition_loop events ([], [])"

text \<open>The dictionary that \<^verbatim>\<open>summarize\<close> returns, as \<^verbatim>\<open>delta\<close> reads it.\<close>

definition summary_dict :: "summary \<Rightarrow> (string \<times> pyval) list" where
  "summary_dict s =
     [(''n'', PInt (count_n s)), (''wins'', PInt (wins s)),
      (''win_rate_%'', PFloat (win_rate_pct s)), (''avg_R'', PFloat (avg_R s)),
      (''med_R'', PFloat (med_R s)), (''exp_R'', PFloat (exp_R s)),
      (''profit_factor'', PFloat (pf s)), (''avg_return_%'', PFloat (avg_return_pct s)),
      (''avg_hold_days'', PFloat (avg_hold_days s)),
      (''target_hit_%'', PFloat (target_hit_pct s)),
      (''stop_hit_%'', PFloat (stop_hit_pct s)), (''time_exit_%'', PFloat (time_exit_pct s)),
      (''avg_rr_at_entry'', PFloat (avg_rr_at_entry s)),
      (''avg_mae_%'', PFloat (avg_mae_pct s)), (''avg_mfe_%'', PFloat (avg_mfe_pct s))]"

text \<open>
  \<^verbatim>\<open>delta(a, b, key)\<close>, on two dictionaries: both reads are \<^verbatim>\<open>.get\<close>, the two
  conversions are inside the \<^verbatim>\<open>try\<close>, and every exception gives NaN.
\<close>

definition delta ::
  "str_parser \<Rightarrow> (string \<times> pyval) list \<Rightarrow> (string \<times> pyval) list \<Rightarrow> string \<Rightarrow> pyfloat" where
  "delta sf a b key =
     (let av = (case map_of a key of None \<Rightarrow> PNone | Some v \<Rightarrow> v);
          bv = (case map_of b key of None \<Rightarrow> PNone | Some v \<Rightarrow> v)
      in case bindE (py_float sf av) (\<lambda>x. bindE (py_float sf bv) (\<lambda>y.
                Inr (if isfinite x \<and> isfinite y then fsub x y else NaN))) of
           Inl _ \<Rightarrow> NaN
         | Inr d \<Rightarrow> d)"

section \<open>Facts about rounding\<close>

text \<open>
  Rounding is monotone, leaves every binary64 value as it is, and so keeps a result
  between two binary64 bounds of the exact value.
\<close>

lemma rne_of_int [simp]: "rne (of_int k) = k"
  by (simp add: rne_def)

lemma rne_mono: assumes "q \<le> r" shows "rne q \<le> rne r"
proof (cases "\<lfloor>q\<rfloor> = \<lfloor>r\<rfloor>")
  case True
  then show ?thesis using assms unfolding rne_def Let_def by auto
next
  case False
  then have "\<lfloor>q\<rfloor> + 1 \<le> \<lfloor>r\<rfloor>" using assms floor_mono[OF assms] by linarith
  moreover have "rne q \<le> \<lfloor>q\<rfloor> + 1" unfolding rne_def Let_def by auto
  moreover have "\<lfloor>r\<rfloor> \<le> rne r" unfolding rne_def Let_def by auto
  ultimately show ?thesis by linarith
qed

lemma floor_log2_bounds:
  assumes "0 < (x::real)"
  shows "2 powi \<lfloor>log 2 x\<rfloor> \<le> x" "x < 2 powi (\<lfloor>log 2 x\<rfloor> + 1)"
proof -
  have "2 powr real_of_int \<lfloor>log 2 x\<rfloor> \<le> x \<and> x < 2 powr real_of_int (\<lfloor>log 2 x\<rfloor> + 1)"
    using floor_log_eq_powr_iff[of x 2 "\<lfloor>log 2 x\<rfloor>"] assms by simp
  then show "2 powi \<lfloor>log 2 x\<rfloor> \<le> x" "x < 2 powi (\<lfloor>log 2 x\<rfloor> + 1)"
    unfolding powr_real_of_int'[of 2, simplified] by simp_all
qed

lemma floor_log2_less:
  assumes "0 < (x::real)" "x < 2 powi k"
  shows "\<lfloor>log 2 x\<rfloor> < k"
proof (rule ccontr)
  assume "\<not> \<lfloor>log 2 x\<rfloor> < k"
  then have "k \<le> \<lfloor>log 2 x\<rfloor>" by simp
  then have "(2::real) powi k \<le> 2 powi \<lfloor>log 2 x\<rfloor>"
    by (intro power_int_increasing) auto
  with floor_log2_bounds(1)[OF assms(1)] assms(2) show False by linarith
qed

lemma expo_ge: "- 1074 \<le> expo x"
  by (simp add: expo_def)

lemma expo_upper: assumes "0 < x" shows "x < 2 powi (expo x + 53)"
proof -
  have "\<lfloor>log 2 x\<rfloor> + 1 \<le> expo x + 53" using assms by (simp add: expo_def)
  then have "(2::real) powi (\<lfloor>log 2 x\<rfloor> + 1) \<le> 2 powi (expo x + 53)"
    by (intro power_int_increasing) auto
  with floor_log2_bounds(2)[OF assms] show ?thesis by linarith
qed

lemma expo_lower: assumes "0 < x" "- 1074 < expo x" shows "2 powi (expo x + 52) \<le> x"
proof -
  have "expo x + 52 = \<lfloor>log 2 x\<rfloor>" using assms by (simp add: expo_def max_def split: if_splits)
  with floor_log2_bounds(1)[OF assms(1)] show ?thesis by simp
qed

lemma expo_mono: assumes "0 < x" "x \<le> y" shows "expo x \<le> expo y"
proof -
  have "log 2 x \<le> log 2 y" using assms by simp
  then have "\<lfloor>log 2 x\<rfloor> \<le> \<lfloor>log 2 y\<rfloor>" by (rule floor_mono)
  then show ?thesis using assms by (simp add: expo_def)
qed

lemma expo_le: assumes "0 < x" "x < 2 powi (e + 53)" "- 1074 \<le> e" shows "expo x \<le> e"
  using floor_log2_less[OF assms(1,2)] assms(1,3) by (simp add: expo_def)

lemma two_powi_pos [simp]: "0 < (2::real) powi e"
  by simp

lemma two_powi_nonneg [simp]: "0 \<le> (2::real) powi e"
  by (simp add: less_imp_le)

lemma rne_0 [simp]: "rne 0 = 0"
  using rne_of_int[of 0] by simp

lemma round_val_0 [simp]: "round_val 0 = 0"
  by (simp add: round_val_def)

lemma round_val_nonneg: assumes "0 \<le> x" shows "0 \<le> round_val x"
proof -
  have "0 \<le> x / 2 powi expo x" using assms by simp
  then have "rne 0 \<le> rne (x / 2 powi expo x)" by (rule rne_mono)
  then have "0 \<le> rne (x / 2 powi expo x)" by simp
  then show ?thesis by (simp add: round_val_def)
qed

lemma round_val_upper: assumes "0 < x" shows "round_val x \<le> 2 powi (expo x + 53)"
proof -
  have "x / 2 powi expo x \<le> 2 powi (expo x + 53) / 2 powi expo x"
    using expo_upper[OF assms] by (intro divide_right_mono) simp_all
  also have "\<dots> = of_int (2 ^ 53)" by (simp add: power_int_add)
  finally have "rne (x / 2 powi expo x) \<le> rne (of_int (2 ^ 53))" by (rule rne_mono)
  then have "rne (x / 2 powi expo x) \<le> 2 ^ 53" by (simp only: rne_of_int)
  then have "real_of_int (rne (x / 2 powi expo x)) \<le> 2 ^ 53"
    by (metis of_int_le_iff of_int_numeral of_int_power)
  then have "real_of_int (rne (x / 2 powi expo x)) * 2 powi expo x \<le> 2 ^ 53 * 2 powi expo x"
    by (simp add: mult_right_mono)
  then show ?thesis by (simp add: round_val_def power_int_add mult.commute)
qed

lemma round_val_lower:
  assumes "0 < x" "- 1074 < expo x" shows "2 powi (expo x + 52) \<le> round_val x"
proof -
  have "2 powi (expo x + 52) / 2 powi expo x \<le> x / 2 powi expo x"
    using expo_lower[OF assms] by (intro divide_right_mono) simp_all
  moreover have "2 powi (expo x + 52) / 2 powi expo x = real_of_int (2 ^ 52)"
    by (simp add: power_int_add)
  ultimately have "rne (of_int (2 ^ 52)) \<le> rne (x / 2 powi expo x)"
    using rne_mono by metis
  then have "2 ^ 52 \<le> rne (x / 2 powi expo x)" by (simp only: rne_of_int)
  then have "2 ^ 52 \<le> real_of_int (rne (x / 2 powi expo x))"
    by (metis of_int_le_iff of_int_numeral of_int_power)
  then have "2 ^ 52 * 2 powi expo x \<le> real_of_int (rne (x / 2 powi expo x)) * 2 powi expo x"
    by (simp add: mult_right_mono)
  then show ?thesis by (simp add: round_val_def power_int_add mult.commute)
qed

lemma round_val_mono_pos:
  assumes "0 < x" "x \<le> y" shows "round_val x \<le> round_val y"
proof (cases "expo x = expo y")
  case True
  have "x / 2 powi expo y \<le> y / 2 powi expo y" using assms by (intro divide_right_mono) simp_all
  then have "rne (x / 2 powi expo y) \<le> rne (y / 2 powi expo y)" by (rule rne_mono)
  then show ?thesis using True by (simp add: round_val_def mult_right_mono)
next
  case False
  have y: "0 < y" using assms by simp
  from False expo_mono[OF assms] have lt: "expo x < expo y" by simp
  then have "- 1074 < expo y" using expo_ge[of x] by simp
  from round_val_lower[OF y this] have "2 powi (expo y + 52) \<le> round_val y" .
  moreover have "(2::real) powi (expo x + 53) \<le> 2 powi (expo y + 52)"
    using lt by (intro power_int_increasing) auto
  ultimately show ?thesis using round_val_upper[OF assms(1)] by linarith
qed

lemma round_val_mono:
  assumes "0 \<le> x" "x \<le> y" shows "round_val x \<le> round_val y"
proof (cases "x = 0")
  case True
  then show ?thesis using round_val_nonneg[of y] assms by simp
next
  case False
  then show ?thesis using round_val_mono_pos[of x y] assms by simp
qed

lemma round_val_exact:
  assumes "0 \<le> m" "m < 2 ^ 53" "- 1074 \<le> e"
  shows "round_val (of_int m * 2 powi e) = of_int m * 2 powi e"
proof (cases "m = 0")
  case True
  then show ?thesis by simp
next
  case False
  define x :: real where "x = of_int m * 2 powi e"
  have m: "0 < m" using False assms by simp
  then have x: "0 < x" by (simp add: x_def)
  have "real_of_int m < 2 ^ 53" using assms(2)
    by (metis of_int_less_iff of_int_numeral of_int_power)
  then have "x < 2 ^ 53 * 2 powi e" by (simp add: x_def)
  then have "x < 2 powi (e + 53)" by (simp add: power_int_add mult.commute)
  from expo_le[OF x this assms(3)] have le: "expo x \<le> e" .
  define d where "d = nat (e - expo x)"
  have e: "e = expo x + int d" using le by (simp add: d_def)
  have "(2::real) powi e = 2 powi expo x * 2 ^ d"
    by (subst e) (simp add: power_int_add)
  then have xe: "x = of_int (m * 2 ^ d) * 2 powi expo x"
    unfolding x_def by (simp add: mult.commute)
  then have "x / 2 powi expo x = of_int (m * 2 ^ d)"
    by (metis nonzero_mult_div_cancel_right two_powi_pos less_irrefl)
  then have "rne (x / 2 powi expo x) = m * 2 ^ d" by (simp only: rne_of_int)
  then have "round_val x = of_int (m * 2 ^ d) * 2 powi expo x" by (simp add: round_val_def)
  with xe have "round_val x = x" by metis
  then show ?thesis unfolding x_def .
qed

lemma big_pow: "(2::real) ^ 53 * 2 powi 971 = 2 ^ 1024"
proof -
  have "(2::real) powi 971 = 2 ^ 971" by (rule power_int_numeral)
  then show ?thesis by (simp only: power_add [symmetric]) simp
qed

lemma is_double_bound: assumes "is_double x" shows "\<bar>x\<bar> < 2 ^ 1024"
proof -
  from assms obtain m e where x: "x = of_int m * 2 powi e" and m: "\<bar>m\<bar> < 2 ^ 53"
    and e: "e \<le> 971" unfolding is_double_def by blast
  have "real_of_int \<bar>m\<bar> < real_of_int (2 ^ 53)" using m by (simp only: of_int_less_iff)
  then have m': "\<bar>real_of_int m\<bar> < 2 ^ 53" by simp
  have e': "(2::real) powi e \<le> 2 powi 971" using e by (intro power_int_increasing) auto
  have "\<bar>real_of_int m\<bar> * 2 powi e < 2 ^ 53 * 2 powi 971"
    by (rule mult_less_le_imp_less[OF m' e']) simp_all
  moreover have "\<bar>x\<bar> = \<bar>real_of_int m\<bar> * 2 powi e" by (simp add: x abs_mult)
  ultimately show ?thesis by (simp only: big_pow)
qed

lemma is_double_minus: assumes "is_double x" shows "is_double (- x)"
proof -
  from assms obtain m e where x: "x = of_int m * 2 powi e" and m: "\<bar>m\<bar> < 2 ^ 53"
    and e: "- 1074 \<le> e" "e \<le> 971" unfolding is_double_def by blast
  have "- x = of_int (- m) * 2 powi e" by (simp add: x)
  moreover have "\<bar>- m\<bar> < 2 ^ 53" using m by simp
  ultimately show ?thesis unfolding is_double_def using e by blast
qed

lemma round_val_double:
  assumes "is_double x" "0 \<le> x" shows "round_val x = x"
proof -
  from assms obtain m e where x: "x = of_int m * 2 powi e" and m: "\<bar>m\<bar> < 2 ^ 53"
    and e: "- 1074 \<le> e" unfolding is_double_def by blast
  have "0 \<le> real_of_int m * 2 powi e" using assms(2) by (simp only: x)
  then have "0 \<le> real_of_int m" using two_powi_pos[of e]
    by (auto simp: zero_le_mult_iff)
  then have m0: "0 \<le> m" by simp
  with m have "m < 2 ^ 53" by simp
  from round_val_exact[OF m0 this e] show ?thesis by (simp only: x)
qed

lemma round_pos_double: assumes "is_double x" "0 \<le> x" shows "round_pos x = Fin x"
proof -
  have "\<not> 2 ^ 1024 \<le> x" using is_double_bound[OF assms(1)] by linarith
  then show ?thesis by (simp only: round_pos_def Let_def round_val_double[OF assms] if_False)
qed

lemma round64_double: assumes "is_double x" shows "round64 x = Fin x"
proof (cases "x < 0")
  case True
  then have "0 \<le> - x" by simp
  from round_pos_double[OF is_double_minus[OF assms] this] True show ?thesis
    by (simp add: round64_def)
next
  case False
  then have "0 \<le> x" by simp
  from round_pos_double[OF assms this] False show ?thesis by (simp add: round64_def)
qed

lemma round_pos_cases:
  assumes "0 \<le> x"
  shows "round_pos x = PInf \<or> (\<exists>v. round_pos x = Fin v \<and> 0 \<le> v)"
proof (cases "2 ^ 1024 \<le> round_val x")
  case True
  then have "round_pos x = PInf" by (simp only: round_pos_def Let_def if_True)
  then show ?thesis by blast
next
  case False
  then have "round_pos x = Fin (round_val x)" by (simp only: round_pos_def Let_def if_False)
  with round_val_nonneg[OF assms] show ?thesis by blast
qed

lemma round_pos_mono:
  assumes "0 \<le> x" "x \<le> y" shows "fle (round_pos x) (round_pos y)"
proof -
  have "round_val x \<le> round_val y" by (rule round_val_mono[OF assms])
  then show ?thesis unfolding round_pos_def Let_def
    by (cases "2 ^ 1024 \<le> round_val x"; cases "2 ^ 1024 \<le> round_val y")
       (simp_all add: fle_def)
qed

lemma fle_fneg: "fle a b \<Longrightarrow> fle (fneg b) (fneg a)"
  by (cases a; cases b) (simp_all add: fle_def)

lemma round64_mono: assumes "x \<le> y" shows "fle (round64 x) (round64 y)"
proof -
  consider "0 \<le> x" | "y < 0" | "x < 0" "0 \<le> y" by linarith
  then show ?thesis
  proof cases
    case 1
    then have "\<not> x < 0" "\<not> y < 0" using assms by simp_all
    then show ?thesis using round_pos_mono[OF 1 assms] by (simp only: round64_def if_False)
  next
    case 2
    then have lt: "x < 0" "y < 0" using assms by simp_all
    have "0 \<le> - y" "- y \<le> - x" using 2 assms by simp_all
    from fle_fneg[OF round_pos_mono[OF this]] show ?thesis using lt
      by (simp only: round64_def if_True)
  next
    case 3
    then have "0 \<le> - x" by simp
    from round_pos_cases[OF this] round_pos_cases[OF 3(2)]
    have "fle (fneg (round_pos (- x))) (round_pos y)"
      by (elim disjE exE conjE) (simp_all add: fle_def)
    then show ?thesis using 3 by (simp add: round64_def)
  qed
qed

lemma round64_between:
  assumes "is_double a" "is_double b" "a \<le> x" "x \<le> b"
  shows "\<exists>v. round64 x = Fin v \<and> a \<le> v \<and> v \<le> b"
proof -
  have "fle (Fin a) (round64 x)"
    using round64_mono[OF assms(3)] by (simp only: round64_double[OF assms(1)])
  moreover have "fle (round64 x) (Fin b)"
    using round64_mono[OF assms(4)] by (simp only: round64_double[OF assms(2)])
  ultimately show ?thesis by (cases "round64 x") (simp_all add: fle_def)
qed

lemma round64_ge:
  assumes "is_double a" "a \<le> x" shows "fle (Fin a) (round64 x)"
  using round64_mono[OF assms(2)] by (simp only: round64_double[OF assms(1)])

lemma is_double_int: assumes "\<bar>k\<bar> < 2 ^ 53" shows "is_double (of_int k)"
proof -
  have "real_of_int k = of_int k * 2 powi 0" by simp
  moreover have "- 1074 \<le> (0::int)" "(0::int) \<le> 971" by simp_all
  ultimately show ?thesis unfolding is_double_def using assms by blast
qed

lemma is_double_pow2: assumes "n \<le> 971" shows "is_double (2 ^ n)"
proof -
  have "(2::real) ^ n = of_int 1 * 2 powi int n" by simp
  moreover have "\<bar>1::int\<bar> < 2 ^ 53" by simp
  moreover have "- 1074 \<le> int n" "int n \<le> 971" using assms by simp_all
  ultimately show ?thesis unfolding is_double_def by blast
qed

lemma round64_int: "\<bar>k\<bar> < 2 ^ 53 \<Longrightarrow> round64 (of_int k) = Fin (of_int k)"
  by (rule round64_double[OF is_double_int])

lemma round64_0 [simp]: "round64 0 = Fin 0"
  using round64_int[of 0] by simp

lemma round64_1 [simp]: "round64 1 = Fin 1"
  using round64_int[of 1] by simp

lemma round64_numeral [simp]:
  "(numeral w :: int) < 2 ^ 53 \<Longrightarrow> round64 (numeral w) = Fin (numeral w)"
  using round64_int[of "numeral w"] by simp

lemma round64_neg_numeral [simp]:
  "(numeral w :: int) < 2 ^ 53 \<Longrightarrow> round64 (- numeral w) = Fin (- numeral w)"
  using round64_int[of "- numeral w"] by simp




section \<open>Basic facts\<close>

lemma bindE_Inr_iff: "bindE m f = Inr y \<longleftrightarrow> (\<exists>x. m = Inr x \<and> f x = Inr y)"
  by (cases m) (simp_all add: bindE_def)

lemma bindE_Inr [simp]: "bindE (Inr x) f = f x"
  by (simp add: bindE_def)

lemma bindE_Inl [simp]: "bindE (Inl e) f = Inl e"
  by (simp add: bindE_def)

text \<open>What a successful run of \<open>summarize\<close> has computed, field by field.\<close>

lemma summarize_InrD:
  assumes "summarize sf rows = Inr s"
  shows "\<exists>res ets R_vals ret_vals rr_vals hold_days mae_vals mfe_vals.
     column ''simulation'' ''result'' rows = Inr res \<and>
     column ''simulation'' ''exitType'' rows = Inr ets \<and>
     list_all hashable ets \<and>
     column ''simulation'' ''R'' rows = Inr R_vals \<and>
     column ''simulation'' ''returnPct'' rows = Inr ret_vals \<and>
     column ''risk'' ''rrAtEntry'' rows = Inr rr_vals \<and>
     column ''simulation'' ''holdingDays'' rows = Inr hold_days \<and>
     column ''simulation'' ''maePct'' rows = Inr mae_vals \<and>
     column ''simulation'' ''mfePct'' rows = Inr mfe_vals \<and>
     count_n s = int (length rows) \<and>
     wins s = count_eq ''WIN'' res \<and>
     pct (count_eq ''WIN'' res) (int (length rows)) = Inr (win_rate_pct s) \<and>
     safe_mean sf R_vals = Inr (avg_R s) \<and>
     safe_median sf R_vals = Inr (med_R s) \<and>
     safe_mean sf R_vals = Inr (exp_R s) \<and>
     profit_factor sf rows = Inr (pf s) \<and>
     safe_mean sf ret_vals = Inr (avg_return_pct s) \<and>
     safe_mean sf hold_days = Inr (avg_hold_days s) \<and>
     pct (count_eq ''TARGET'' ets) (int (length rows)) = Inr (target_hit_pct s) \<and>
     pct (count_eq ''STOP'' ets) (int (length rows)) = Inr (stop_hit_pct s) \<and>
     pct (count_eq ''TIME'' ets) (int (length rows)) = Inr (time_exit_pct s) \<and>
     safe_mean sf rr_vals = Inr (avg_rr_at_entry s) \<and>
     safe_mean sf mae_vals = Inr (avg_mae_pct s) \<and>
     safe_mean sf mfe_vals = Inr (avg_mfe_pct s)"
  using assms unfolding summarize_def Let_def bindE_Inr_iff counter_def
  by (auto split: if_splits)

lemma summarize_Nil:
  "summarize sf [] =
     Inr \<lparr> count_n = 0, wins = 0, win_rate_pct = NaN, avg_R = NaN, med_R = NaN, exp_R = NaN,
           pf = NaN, avg_return_pct = NaN, avg_hold_days = NaN, target_hit_pct = NaN,
           stop_hit_pct = NaN, time_exit_pct = NaN, avg_rr_at_entry = NaN, avg_mae_pct = NaN,
           avg_mfe_pct = NaN \<rparr>"
  by (simp add: summarize_def column_def counter_def count_eq_def pct_def safe_mean_def
      safe_median_def profit_factor_def pf_final_def fgt_def)

section \<open>The empty list\<close>

text \<open>
  Claim C5. \<^verbatim>\<open>summarize([])\<close> returns a summary with \<^verbatim>\<open>n\<close> equal to 0 and NaN in every
  percentage field (\<^verbatim>\<open>win_rate_%\<close>, \<^verbatim>\<open>target_hit_%\<close>, \<^verbatim>\<open>stop_hit_%\<close>, \<^verbatim>\<open>time_exit_%\<close>)
  and in every mean or median field (\<^verbatim>\<open>avg_R\<close>, \<^verbatim>\<open>med_R\<close>, \<^verbatim>\<open>exp_R\<close>,
  \<^verbatim>\<open>profit_factor\<close>, \<^verbatim>\<open>avg_return_%\<close>, \<^verbatim>\<open>avg_hold_days\<close>, \<^verbatim>\<open>avg_rr_at_entry\<close>,
  \<^verbatim>\<open>avg_mae_%\<close>, \<^verbatim>\<open>avg_mfe_%\<close>). No exception is raised on the way.
\<close>

theorem summarize_empty:
  "\<exists>s. summarize sf [] = Inr s \<and> count_n s = 0 \<and>
     win_rate_pct s = NaN \<and> target_hit_pct s = NaN \<and> stop_hit_pct s = NaN \<and>
     time_exit_pct s = NaN \<and> avg_R s = NaN \<and> med_R s = NaN \<and> exp_R s = NaN \<and>
     pf s = NaN \<and> avg_return_pct s = NaN \<and> avg_hold_days s = NaN \<and>
     avg_rr_at_entry s = NaN \<and> avg_mae_pct s = NaN \<and> avg_mfe_pct s = NaN"
  by (simp add: summarize_Nil)

section \<open>Expectancy\<close>

text \<open>
  Claim C9. For every record list on which \<^verbatim>\<open>summarize\<close> returns, the \<^verbatim>\<open>exp_R\<close> field
  of the result is the \<^verbatim>\<open>avg_R\<close> field: both are \<^verbatim>\<open>safe_mean(R_vals)\<close>. Equality here is
  identity of the float, so NaN is equal to NaN (Python's \<^verbatim>\<open>==\<close> would say otherwise).
\<close>

theorem exp_R_is_avg_R: "summarize sf rows = Inr s \<Longrightarrow> exp_R s = avg_R s"
  using summarize_InrD [of sf rows s] by auto

end
